theory Spec2Isabelle
  imports Main "HOL-Library.Multiset"
begin

section \<open>Data model of the mod registry (src/mod_manager.py)\<close>

text \<open>
  A mod is one dictionary of \<^verbatim>\<open>self.mods_data\<close>, with the keys that
  \<^verbatim>\<open>install_mod_file\<close> and \<^verbatim>\<open>install_mod_folder\<close> write. The key
  \<^verbatim>\<open>'id'\<close> is the field \<open>mod_id\<close> and the key \<^verbatim>\<open>'type'\<close> (the string
  \<^verbatim>\<open>'file'\<close> or \<^verbatim>\<open>'folder'\<close>) is the field \<open>mod_type\<close>. Python integers are
  \<open>int\<close>. A character is one code point below 256.
\<close>

record mod_rec =
  mod_id :: int
  name :: string
  file_path :: string
  original_path :: string
  enabled :: bool
  priority :: int
  mod_type :: string

text \<open>
  The file system is a map from a path to what is stored there: a complete payload, or
  the incomplete remains of a copy or of a deletion that raised. The JSON file
  \<^verbatim>\<open>mods_data.json\<close> is absent, is text that is not JSON (\<open>Corrupt\<close>), is
  not text in the encoding of the platform (\<open>Undecodable\<close>), or holds a list of mods.
\<close>

datatype payload = Complete | Incomplete

datatype stored = Absent | Corrupt | Undecodable | Saved "mod_rec list"

record session =
  mods_data :: "mod_rec list"
  mods_folder :: string
  disk :: "string \<rightharpoonup> payload"
  mods_file :: stored

text \<open>
  The environment decides how each call into the operating system ends: it returns, or
  it raises having left its target untouched, or it raises having left a remnant. One
  operation of the registry makes at most one copy, one deletion and one save.
\<close>

datatype residue = Untouched | Remnant

datatype io_result = IoOk | IoRaises residue

record env =
  copy_io :: io_result
  delete_io :: io_result
  save_io :: io_result

datatype exn =
    OSError
  | FileExistsError
  | UnboundLocalError
  | UnicodeDecodeError
  | ValueError
  | InterpolationSyntaxError
  | InterpolationError

text \<open>
  How a handler of the user interface ends: its success message is set
  (\<open>Completed\<close>), a warning is shown because nothing is selected (\<open>Warned\<close>), the
  confirmation is declined (\<open>Cancelled\<close>), it returns without doing anything
  (\<open>NoAction\<close>), its \<^verbatim>\<open>except Exception\<close> clause shows an error box
  (\<open>ErrorShown\<close>), or an exception leaves the handler (\<open>Raised\<close>).
\<close>

datatype outcome = Completed | Warned | Cancelled | NoAction | ErrorShown exn | Raised exn

fun is_error :: "outcome \<Rightarrow> bool" where
  "is_error (ErrorShown e) = True"
| "is_error (Raised e) = True"
| "is_error r = False"

section \<open>Paths\<close>

text \<open>\<^verbatim>\<open>os.path.basename\<close> (posixpath): everything after the last slash.\<close>

definition basename :: "string \<Rightarrow> string" where
  "basename p = rev (takeWhile (\<lambda>c. c \<noteq> CHR ''/'') (rev p))"

text \<open>
  The first component of \<^verbatim>\<open>os.path.splitext\<close>, on a name without a slash (it is
  applied to a basename): the name up to its last dot, when some character before that
  dot is not a dot; the whole name otherwise.
\<close>

definition splitext_root :: "string \<Rightarrow> string" where
  "splitext_root p =
     (if CHR ''.'' \<in> set p then
        (let root = take (length p - length (takeWhile (\<lambda>c. c \<noteq> CHR ''.'') (rev p)) - 1) p
         in if \<exists>c \<in> set root. c \<noteq> CHR ''.'' then root else p)
      else p)"

text \<open>\<^verbatim>\<open>os.path.join\<close> (posixpath) of two components.\<close>

definition path_join :: "string \<Rightarrow> string \<Rightarrow> string" where
  "path_join a b =
     (if b \<noteq> [] \<and> hd b = CHR ''/'' then b
      else if a = [] \<or> last a = CHR ''/'' then a @ b
      else a @ ''/'' @ b)"

section \<open>Persistence of the registry\<close>

text \<open>
  \<^verbatim>\<open>save_mods_data\<close>: opening the file for writing truncates it, so a save that
  raises after the file is open leaves a file that is not JSON.
\<close>

definition save_mods_data :: "env \<Rightarrow> session \<Rightarrow> exn option \<times> session" where
  "save_mods_data e st =
     (case save_io e of
        IoOk \<Rightarrow> (None, st\<lparr>mods_file := Saved (mods_data st)\<rparr>)
      | IoRaises Untouched \<Rightarrow> (Some OSError, st)
      | IoRaises Remnant \<Rightarrow> (Some OSError, st\<lparr>mods_file := Corrupt\<rparr>))"


section \<open>File system calls\<close>

text \<open>
  \<^verbatim>\<open>shutil.copy2\<close> overwrites its destination. \<^verbatim>\<open>shutil.copytree\<close> raises
  when the destination exists. \<^verbatim>\<open>os.remove\<close> unlinks one file or leaves it as it
  is. \<^verbatim>\<open>shutil.rmtree\<close> may raise after deleting a part of the tree.
\<close>

definition copy2 :: "env \<Rightarrow> string \<Rightarrow> (string \<rightharpoonup> payload) \<Rightarrow> exn option \<times> (string \<rightharpoonup> payload)" where
  "copy2 e dst d =
     (case copy_io e of
        IoOk \<Rightarrow> (None, d(dst \<mapsto> Complete))
      | IoRaises Untouched \<Rightarrow> (Some OSError, d)
      | IoRaises Remnant \<Rightarrow> (Some OSError, d(dst \<mapsto> Incomplete)))"

definition copytree :: "env \<Rightarrow> string \<Rightarrow> (string \<rightharpoonup> payload) \<Rightarrow> exn option \<times> (string \<rightharpoonup> payload)" where
  "copytree e dst d =
     (if d dst \<noteq> None then (Some FileExistsError, d)
      else case copy_io e of
        IoOk \<Rightarrow> (None, d(dst \<mapsto> Complete))
      | IoRaises Untouched \<Rightarrow> (Some OSError, d)
      | IoRaises Remnant \<Rightarrow> (Some OSError, d(dst \<mapsto> Incomplete)))"

definition os_remove :: "env \<Rightarrow> string \<Rightarrow> (string \<rightharpoonup> payload) \<Rightarrow> exn option \<times> (string \<rightharpoonup> payload)" where
  "os_remove e p d =
     (case delete_io e of
        IoOk \<Rightarrow> (None, d(p := None))
      | IoRaises r \<Rightarrow> (Some OSError, d))"

definition rmtree :: "env \<Rightarrow> string \<Rightarrow> (string \<rightharpoonup> payload) \<Rightarrow> exn option \<times> (string \<rightharpoonup> payload)" where
  "rmtree e p d =
     (case delete_io e of
        IoOk \<Rightarrow> (None, d(p := None))
      | IoRaises Untouched \<Rightarrow> (Some OSError, d)
      | IoRaises Remnant \<Rightarrow> (Some OSError, d(p \<mapsto> Incomplete)))"

section \<open>Operations of the registry\<close>

text \<open>
  The loop \<^verbatim>\<open>for i, mod in enumerate(self.mods_data): if mod['name'] == mod_name\<close>
  with its \<^verbatim>\<open>break\<close>: the index of the first mod of that name.
\<close>

fun find_mod :: "string \<Rightarrow> mod_rec list \<Rightarrow> nat option" where
  "find_mod n [] = None"
| "find_mod n (m # ms) = (if name m = n then Some 0 else map_option Suc (find_mod n ms))"

text \<open>\<^verbatim>\<open>for i, mod in enumerate(self.mods_data): mod['priority'] = i\<close>\<close>

definition renumber :: "mod_rec list \<Rightarrow> mod_rec list" where
  "renumber ms = map (\<lambda>(i, m). m\<lparr>priority := int i\<rparr>) (enumerate 0 ms)"

text \<open>\<^verbatim>\<open>self.mods_data.pop(mod_index)\<close>, for an index in range.\<close>

definition pop :: "nat \<Rightarrow> 'a list \<Rightarrow> 'a list" where
  "pop i xs = take i xs @ drop (Suc i) xs"

text \<open>\<^verbatim>\<open>xs[i], xs[j] = xs[j], xs[i]\<close>, for indices in range.\<close>

definition swap_items :: "nat \<Rightarrow> nat \<Rightarrow> 'a list \<Rightarrow> 'a list" where
  "swap_items i j xs = xs[i := xs ! j, j := xs ! i]"

definition new_mod :: "session \<Rightarrow> string \<Rightarrow> string \<Rightarrow> string \<Rightarrow> string \<Rightarrow> mod_rec" where
  "new_mod st mod_name filename source kind =
     \<lparr>mod_id = int (length (mods_data st)), name = mod_name, file_path = filename,
      original_path = source, enabled = True, priority = int (length (mods_data st)),
      mod_type = kind\<rparr>"

text \<open>
  The end that \<^verbatim>\<open>install_mod_file\<close>, \<^verbatim>\<open>install_mod_folder\<close> and
  \<^verbatim>\<open>remove_mod\<close> share: save inside the \<^verbatim>\<open>try\<close>, so that a save that raises
  is shown as an error.
\<close>

definition save_shown :: "env \<Rightarrow> session \<Rightarrow> outcome \<times> session" where
  "save_shown e st =
     (case save_mods_data e st of
        (Some x, st') \<Rightarrow> (ErrorShown x, st')
      | (None, st') \<Rightarrow> (Completed, st'))"

definition install_mod_file :: "string \<Rightarrow> env \<Rightarrow> session \<Rightarrow> outcome \<times> session" where
  "install_mod_file path e st =
     (let filename = basename path;
          mod_name = splitext_root filename;
          mod_data = new_mod st mod_name filename path ''file'';
          dest_path = path_join (mods_folder st) filename
      in case copy2 e dest_path (disk st) of
           (Some x, d) \<Rightarrow> (ErrorShown x, st\<lparr>disk := d\<rparr>)
         | (None, d) \<Rightarrow> save_shown e (st\<lparr>mods_data := mods_data st @ [mod_data], disk := d\<rparr>))"

definition install_mod_folder :: "string \<Rightarrow> env \<Rightarrow> session \<Rightarrow> outcome \<times> session" where
  "install_mod_folder path e st =
     (let folder_name = basename path;
          mod_data = new_mod st folder_name folder_name path ''folder'';
          dest_path = path_join (mods_folder st) folder_name
      in case copytree e dest_path (disk st) of
           (Some x, d) \<Rightarrow> (ErrorShown x, st\<lparr>disk := d\<rparr>)
         | (None, d) \<Rightarrow> save_shown e (st\<lparr>mods_data := mods_data st @ [mod_data], disk := d\<rparr>))"

text \<open>
  \<^verbatim>\<open>remove_mod\<close>: \<open>selection\<close> is the name of the selected row (\<open>None\<close> when no
  row is selected) and \<open>confirm\<close> the answer to the confirmation box.
\<close>

definition remove_payload :: "env \<Rightarrow> mod_rec \<Rightarrow> string \<Rightarrow> (string \<rightharpoonup> payload) \<Rightarrow> exn option \<times> (string \<rightharpoonup> payload)" where
  "remove_payload e m mod_path d =
     (if d mod_path \<noteq> None then
        (if mod_type m = ''folder'' then rmtree e mod_path d else os_remove e mod_path d)
      else (None, d))"

definition remove_mod :: "string option \<Rightarrow> bool \<Rightarrow> env \<Rightarrow> session \<Rightarrow> outcome \<times> session" where
  "remove_mod selection confirm e st =
     (case selection of
        None \<Rightarrow> (Warned, st)
      | Some mod_name \<Rightarrow>
          if \<not> confirm then (Cancelled, st)
          else case find_mod mod_name (mods_data st) of
            None \<Rightarrow> (NoAction, st)
          | Some mod_index \<Rightarrow>
              (let m = mods_data st ! mod_index;
                   mod_path = path_join (mods_folder st) (file_path m)
               in case remove_payload e m mod_path (disk st) of
                    (Some x, d) \<Rightarrow> (ErrorShown x, st\<lparr>disk := d\<rparr>)
                  | (None, d) \<Rightarrow>
                      save_shown e (st\<lparr>mods_data := renumber (pop mod_index (mods_data st)),
                                         disk := d\<rparr>)))"

text \<open>
  \<^verbatim>\<open>toggle_mod\<close>: the loop negates \<^verbatim>\<open>enabled\<close> in the first mod of the selected
  name. The save follows whether or not a mod matched. The status line then reads the
  loop variable, which is unbound when the registry is empty.
\<close>

fun toggle_first :: "string \<Rightarrow> mod_rec list \<Rightarrow> mod_rec list" where
  "toggle_first n [] = []"
| "toggle_first n (m # ms) =
     (if name m = n then m\<lparr>enabled := \<not> enabled m\<rparr> # ms else m # toggle_first n ms)"

definition toggle_mod :: "string option \<Rightarrow> env \<Rightarrow> session \<Rightarrow> outcome \<times> session" where
  "toggle_mod selection e st =
     (case selection of
        None \<Rightarrow> (Warned, st)
      | Some mod_name \<Rightarrow>
          (case save_mods_data e (st\<lparr>mods_data := toggle_first mod_name (mods_data st)\<rparr>) of
             (Some x, st') \<Rightarrow> (Raised x, st')
           | (None, st') \<Rightarrow>
               if mods_data st' = [] then (Raised UnboundLocalError, st') else (Completed, st')))"

text \<open>
  \<^verbatim>\<open>move_mod\<close>: the position of a mod is its index in \<^verbatim>\<open>self.mods_data\<close>. The
  save is outside any \<^verbatim>\<open>try\<close>.
\<close>

definition move_mod :: "string option \<Rightarrow> int \<Rightarrow> env \<Rightarrow> session \<Rightarrow> outcome \<times> session" where
  "move_mod selection direction e st =
     (case selection of
        None \<Rightarrow> (Warned, st)
      | Some mod_name \<Rightarrow>
          (case find_mod mod_name (mods_data st) of
             None \<Rightarrow> (NoAction, st)
           | Some mod_index \<Rightarrow>
               (let new_index = int mod_index + direction
                in if 0 \<le> new_index \<and> new_index < int (length (mods_data st)) then
                     (case save_mods_data e
                             (st\<lparr>mods_data :=
                                  renumber (swap_items mod_index (nat new_index) (mods_data st))\<rparr>) of
                        (Some x, st') \<Rightarrow> (Raised x, st')
                      | (None, st') \<Rightarrow> (Completed, st'))
                   else (NoAction, st))))"

text \<open>\<^verbatim>\<open>refresh_mod_list\<close> shows \<^verbatim>\<open>sorted(self.mods_data, key=priority)\<close>, a stable sort.\<close>

definition refresh_mod_list :: "mod_rec list \<Rightarrow> mod_rec list" where
  "refresh_mod_list ms = sort_key priority ms"

text \<open>The operations a user can trigger, and a run of them, each in its own environment.\<close>

datatype op =
    Install_file string
  | Install_folder string
  | Remove "string option" bool
  | Toggle "string option"
  | Move "string option" int

fun step :: "env \<Rightarrow> op \<Rightarrow> session \<Rightarrow> outcome \<times> session" where
  "step e (Install_file p) st = install_mod_file p e st"
| "step e (Install_folder p) st = install_mod_folder p e st"
| "step e (Remove sel c) st = remove_mod sel c e st"
| "step e (Toggle sel) st = toggle_mod sel e st"
| "step e (Move sel dir) st = move_mod sel dir e st"

fun run :: "(env \<times> op) list \<Rightarrow> session \<Rightarrow> session" where
  "run [] st = st"
| "run ((e, x) # xs) st = run xs (snd (step e x st))"

text \<open>The two invariants on priorities.\<close>

definition dense_perm :: "mod_rec list \<Rightarrow> bool" where
  "dense_perm ms = (mset (map priority ms) = mset (map int [0..<length ms]))"

definition aligned :: "mod_rec list \<Rightarrow> bool" where
  "aligned ms = (map priority ms = map int [0..<length ms])"

section \<open>Sample sessions\<close>

definition env_ok :: env where
  "env_ok = \<lparr>copy_io = IoOk, delete_io = IoOk, save_io = IoOk\<rparr>"

definition mod_a :: mod_rec where
  "mod_a = \<lparr>mod_id = 0, name = ''A'', file_path = ''A.zip'', original_path = ''/dl/A.zip'',
            enabled = True, priority = 0, mod_type = ''file''\<rparr>"

definition mod_b :: mod_rec where
  "mod_b = \<lparr>mod_id = 1, name = ''B'', file_path = ''B'', original_path = ''/dl/B'',
            enabled = True, priority = 1, mod_type = ''folder''\<rparr>"

definition mod_c :: mod_rec where
  "mod_c = \<lparr>mod_id = 2, name = ''C'', file_path = ''C.pak'', original_path = ''/dl/C.pak'',
            enabled = False, priority = 2, mod_type = ''file''\<rparr>"

definition session_of :: "mod_rec list \<Rightarrow> session" where
  "session_of ms =
     \<lparr>mods_data = ms, mods_folder = ''/mods'', disk = Map.empty, mods_file = Absent\<rparr>"

definition sample_ops :: "(env \<times> op) list" where
  "sample_ops =
     [(env_ok, Install_file ''/dl/D.v1.zip''), (env_ok, Move (Some ''D.v1'') (- 1)),
      (env_ok, Remove (Some ''B'') True), (env_ok, Toggle (Some ''C''))]"

definition env_copy_partway :: env where
  "env_copy_partway = \<lparr>copy_io = IoRaises Remnant, delete_io = IoOk, save_io = IoOk\<rparr>"

definition env_save_fails :: env where
  "env_save_fails = \<lparr>copy_io = IoOk, delete_io = IoOk, save_io = IoRaises Untouched\<rparr>"

definition env_delete_fails :: env where
  "env_delete_fails = \<lparr>copy_io = IoOk, delete_io = IoRaises Untouched, save_io = IoOk\<rparr>"


definition session_on_disk :: session where
  "session_on_disk =
     \<lparr>mods_data = [mod_a, mod_b], mods_folder = ''/mods'',
      disk = [''/mods/A.zip'' \<mapsto> Complete], mods_file = Absent\<rparr>"




section \<open>The path catalog\<close>

text \<open>
  The part of the application that \<^verbatim>\<open>load_config\<close> and \<^verbatim>\<open>save_config\<close>
  handle: the two configured paths, the dictionary \<^verbatim>\<open>self.recent_paths\<close> with its
  keys \<^verbatim>\<open>'game'\<close>, \<^verbatim>\<open>'mods'\<close> and \<^verbatim>\<open>'files'\<close>, and the dictionary
  \<^verbatim>\<open>self.favorites\<close> with its keys \<^verbatim>\<open>'game'\<close> and \<^verbatim>\<open>'mods'\<close>.
\<close>

record catalog =
  game_path :: string
  mods_folder_path :: string
  recent_game :: "string list"
  recent_mods :: "string list"
  recent_files :: "string list"
  favorites_game :: "string list"
  favorites_mods :: "string list"

datatype path_type = Game | Mods | Files

fun recent_paths :: "catalog \<Rightarrow> path_type \<Rightarrow> string list" where
  "recent_paths c Game = recent_game c"
| "recent_paths c Mods = recent_mods c"
| "recent_paths c Files = recent_files c"

fun set_recent_paths :: "path_type \<Rightarrow> string list \<Rightarrow> catalog \<Rightarrow> catalog" where
  "set_recent_paths Game xs c = c\<lparr>recent_game := xs\<rparr>"
| "set_recent_paths Mods xs c = c\<lparr>recent_mods := xs\<rparr>"
| "set_recent_paths Files xs c = c\<lparr>recent_files := xs\<rparr>"

definition max_recent_items :: nat where
  "max_recent_items = 10"

text \<open>The catalog that \<^verbatim>\<open>__init__\<close> sets up before it calls \<^verbatim>\<open>load_config\<close>.\<close>

definition init_catalog :: catalog where
  "init_catalog =
     \<lparr>game_path = [], mods_folder_path = [], recent_game = [], recent_mods = [],
      recent_files = [], favorites_game = [], favorites_mods = []\<rparr>"

subsection \<open>The INI file as \<^verbatim>\<open>configparser.ConfigParser\<close> handles it\<close>

text \<open>
  The content of an INI file that the parser accepts: its sections in order, each a
  list of options (in lower case, as the parser keeps them), and for every option the
  value as it stands in the file after the delimiter. The names of the sections are
  distinct, and so are the options of one section: the parser refuses any other file.
  The section \<^verbatim>\<open>DEFAULT\<close> holds the defaults of all sections. The file is
  written and read in an encoding that holds every character.
\<close>

type_synonym ini = "(string \<times> (string \<times> string) list) list"



text \<open>
  The pattern \<^verbatim>\<open>%\(([^)]+)\)s\<close> of the interpolation, tried on the text that
  follows a percent sign: the rest of the text after the match, if it matches.
\<close>

definition match_key :: "string \<Rightarrow> string option" where
  "match_key r =
     (case r of
        [] \<Rightarrow> None
      | c # r1 \<Rightarrow>
          if c = CHR ''('' then
            (let body = takeWhile (\<lambda>x. x \<noteq> CHR '')'') r1;
                 r2 = dropWhile (\<lambda>x. x \<noteq> CHR '')'') r1
             in if body \<noteq> [] \<and> take 2 r2 = '')s'' then Some (drop 2 r2) else None)
          else None)"

text \<open>
  \<^verbatim>\<open>BasicInterpolation.before_set\<close>, which every assignment of a value runs:
  \<^verbatim>\<open>value.replace('%%', '')\<close>, then the removal of every match of the pattern,
  and a \<^verbatim>\<open>ValueError\<close> when a percent sign is left.
\<close>

fun drop_escaped :: "string \<Rightarrow> string" where
  "drop_escaped [] = []"
| "drop_escaped [c] = [c]"
| "drop_escaped (c # d # r) =
     (if c = CHR ''%'' \<and> d = CHR ''%'' then drop_escaped r else c # drop_escaped (d # r))"

function drop_keys :: "string \<Rightarrow> string" where
  "drop_keys [] = []"
| "drop_keys (c # r) =
     (if c = CHR ''%'' then
        (case match_key r of Some rest \<Rightarrow> drop_keys rest | None \<Rightarrow> c # drop_keys r)
      else c # drop_keys r)"
  by pat_completeness auto
termination
proof (relation "measure length")
  fix c :: char and r rest :: string
  assume m: "match_key r = Some rest"
  have "length rest \<le> length r"
  proof (cases r)
    case Nil
    with m show ?thesis
      by (simp add: match_key_def)
  next
    case (Cons d r1)
    with m have "rest = drop 2 (dropWhile (\<lambda>x. x \<noteq> CHR '')'') r1)"
      by (simp add: match_key_def Let_def split: if_splits)
    moreover have "length (dropWhile (\<lambda>x. x \<noteq> CHR '')'') r1) \<le> length r1"
      by (rule length_dropWhile_le)
    ultimately show ?thesis
      using Cons by simp
  qed
  then show "(rest, c # r) \<in> measure length"
    by simp
qed simp_all

definition before_set :: "string \<Rightarrow> bool" where
  "before_set v = (CHR ''%'' \<notin> set (drop_keys (drop_escaped v)))"








subsection \<open>Saving and loading the catalog\<close>

text \<open>\<^verbatim>\<open>'|'.join(xs)\<close> and \<^verbatim>\<open>s.split('|')\<close>.\<close>

fun join_with :: "string \<Rightarrow> string list \<Rightarrow> string" where
  "join_with sep [] = []"
| "join_with sep [x] = x"
| "join_with sep (x # y # ys) = x @ sep @ join_with sep (y # ys)"



text \<open>
  \<^verbatim>\<open>save_config\<close>: the sections that it assigns, and the content of the file
  that it then writes, when every assignment passed.
\<close>

definition config_content :: "catalog \<Rightarrow> ini" where
  "config_content c =
     [(''Settings'', [(''game_path'', game_path c), (''mods_folder'', mods_folder_path c)]),
      (''RecentPaths'',
         [(''game_paths'', join_with ''|'' (take max_recent_items (recent_game c))),
          (''mods_paths'', join_with ''|'' (take max_recent_items (recent_mods c))),
          (''files_paths'', join_with ''|'' (take max_recent_items (recent_files c)))]),
      (''Favorites'',
         [(''game_favorites'', join_with ''|'' (favorites_game c)),
          (''mods_favorites'', join_with ''|'' (favorites_mods c))])]"

definition save_config :: "catalog \<Rightarrow> exn + ini" where
  "save_config c =
     (if \<forall>v \<in> set (concat (map (map snd \<circ> snd) (config_content c))). before_set v
      then Inr (config_content c) else Inl ValueError)"




text \<open>
  \<^verbatim>\<open>add_to_recent_paths\<close>: \<open>ex\<close> is \<^verbatim>\<open>os.path.exists\<close>. The state is the
  catalog and the content of the INI file (\<open>None\<close> when there is no file); the result
  is the exception that leaves the function, if any, and the new state.
  \<^verbatim>\<open>save_config\<close> runs after the list is assigned.
\<close>

definition add_to_recent_paths ::
  "(string \<Rightarrow> bool) \<Rightarrow> path_type \<Rightarrow> string \<Rightarrow> catalog \<times> ini option \<Rightarrow>
     exn option \<times> catalog \<times> ini option" where
  "add_to_recent_paths ex k path a =
     (if path \<noteq> [] \<and> ex path then
        (let xs = recent_paths (fst a) k;
             xs1 = (if path \<in> set xs then remove1 path xs else xs);
             xs2 = path # xs1;
             c = set_recent_paths k (take max_recent_items xs2) (fst a)
         in case save_config c of
              Inl x \<Rightarrow> (Some x, c, snd a)
            | Inr cfg \<Rightarrow> (None, c, Some cfg))
      else (None, a))"

text \<open>A run of calls of \<^verbatim>\<open>add_to_recent_paths\<close>, each on the state the last one left.\<close>

fun record_all ::
  "(string \<Rightarrow> bool) \<Rightarrow> path_type \<Rightarrow> string list \<Rightarrow> catalog \<times> ini option \<Rightarrow> catalog \<times> ini option" where
  "record_all ex k [] a = a"
| "record_all ex k (p # ps) a = record_all ex k ps (snd (add_to_recent_paths ex k p a))"





subsection \<open>Sample catalogs\<close>

definition sample_catalog :: catalog where
  "sample_catalog =
     \<lparr>game_path = ''/games/doom'', mods_folder_path = ''/games/doom/mods'',
      recent_game = [''/games/doom'', ''/games/quake''], recent_mods = [''/games/doom/mods''],
      recent_files = [], favorites_game = [''/games''], favorites_mods = []\<rparr>"


definition all_exist :: "string \<Rightarrow> bool" where
  "all_exist p = True"

definition eleven_paths :: "string list" where
  "eleven_paths = [''/m/1'', ''/m/2'', ''/m/3'', ''/m/4'', ''/m/5'', ''/m/6'', ''/m/7'',
     ''/m/8'', ''/m/9'', ''/m/10'', ''/m/11'']"

definition doubled_catalog :: catalog where
  "doubled_catalog = init_catalog\<lparr>recent_game := [''/games/a'', ''/games/a'']\<rparr>"


section \<open>Lemmas on the registry operations\<close>

lemma length_renumber: "length (renumber ms) = length ms"
  by (simp add: renumber_def)

lemma priority_renumber: "map priority (renumber ms) = map int [0..<length ms]"
proof -
  have "map priority (renumber ms) = map (\<lambda>x. int (fst x)) (enumerate 0 ms)"
    by (simp add: renumber_def split_def comp_def)
  also have "\<dots> = map int (map fst (enumerate 0 ms))"
    by (simp only: map_map comp_def)
  also have "\<dots> = map int [0..<length ms]"
    by (simp add: map_fst_enumerate)
  finally show ?thesis .
qed

lemma aligned_renumber: "aligned (renumber ms)"
  by (simp add: aligned_def priority_renumber length_renumber)

lemma aligned_dense: "aligned ms \<Longrightarrow> dense_perm ms"
  by (simp add: aligned_def dense_perm_def)

lemma priority_toggle_first: "map priority (toggle_first n ms) = map priority ms"
  by (induction ms) auto

lemma length_toggle_first: "length (toggle_first n ms) = length ms"
  by (induction ms) auto

lemma dense_toggle: "dense_perm ms \<Longrightarrow> dense_perm (toggle_first n ms)"
  by (simp add: dense_perm_def priority_toggle_first length_toggle_first)

lemma aligned_toggle: "aligned ms \<Longrightarrow> aligned (toggle_first n ms)"
  by (simp add: aligned_def priority_toggle_first length_toggle_first)

lemma save_mods_dataD: "save_mods_data e st = (r, st') \<Longrightarrow> mods_data st' = mods_data st"
  by (auto simp add: save_mods_data_def split: io_result.splits residue.splits)

lemma mods_data_save: "mods_data (snd (save_mods_data e st)) = mods_data st"
  by (simp add: save_mods_data_def split: io_result.splits residue.splits)

lemma mods_data_save_shown: "mods_data (snd (save_shown e st)) = mods_data st"
  using mods_data_save [of e st]
  by (auto simp add: save_shown_def split: prod.splits option.splits)

lemma dense_install:
  assumes "dense_perm (mods_data st)"
  shows "dense_perm (mods_data st @ [new_mod st n f s k])"
  using assms by (simp add: dense_perm_def new_mod_def)

lemma aligned_install:
  assumes "aligned (mods_data st)"
  shows "aligned (mods_data st @ [new_mod st n f s k])"
  using assms by (simp add: aligned_def new_mod_def)

text \<open>What each operation can leave in memory.\<close>

lemma mods_install_file:
  "mods_data (snd (install_mod_file p e st)) = mods_data st \<or>
   mods_data (snd (install_mod_file p e st)) =
     mods_data st @ [new_mod st (splitext_root (basename p)) (basename p) p ''file'']"
  by (auto simp add: install_mod_file_def Let_def mods_data_save_shown
      split: prod.splits option.splits)

lemma mods_install_folder:
  "mods_data (snd (install_mod_folder p e st)) = mods_data st \<or>
   mods_data (snd (install_mod_folder p e st)) =
     mods_data st @ [new_mod st (basename p) (basename p) p ''folder'']"
  by (auto simp add: install_mod_folder_def Let_def mods_data_save_shown
      split: prod.splits option.splits)

lemma mods_remove:
  "mods_data (snd (remove_mod sel c e st)) = mods_data st \<or>
   (\<exists>ms. mods_data (snd (remove_mod sel c e st)) = renumber ms)"
  by (auto simp add: remove_mod_def Let_def mods_data_save_shown
      split: prod.splits option.splits)

lemma mods_move:
  "mods_data (snd (move_mod sel dir e st)) = mods_data st \<or>
   (\<exists>ms. mods_data (snd (move_mod sel dir e st)) = renumber ms)"
  by (auto simp add: move_mod_def Let_def split: prod.splits option.splits
      dest!: save_mods_dataD)

lemma mods_toggle:
  "mods_data (snd (toggle_mod sel e st)) =
     (case sel of None \<Rightarrow> mods_data st | Some n \<Rightarrow> toggle_first n (mods_data st))"
  by (auto simp add: toggle_mod_def Let_def split: prod.splits option.splits
      dest!: save_mods_dataD)

lemma dense_step:
  assumes "dense_perm (mods_data st)"
  shows "dense_perm (mods_data (snd (step e x st)))"
proof (cases x)
  case (Install_file p)
  then show ?thesis
    using assms mods_install_file [of p e st] dense_install [of st] by auto
next
  case (Install_folder p)
  then show ?thesis
    using assms mods_install_folder [of p e st] dense_install [of st] by auto
next
  case (Remove sel c)
  then show ?thesis
    using assms mods_remove [of sel c e st] aligned_dense [OF aligned_renumber] by auto
next
  case (Toggle sel)
  then show ?thesis
    using assms mods_toggle [of sel e st] dense_toggle by (auto split: option.splits)
next
  case (Move sel dir)
  then show ?thesis
    using assms mods_move [of sel dir e st] aligned_dense [OF aligned_renumber] by auto
qed

lemma dense_run: "dense_perm (mods_data st) \<Longrightarrow> dense_perm (mods_data (run xs st))"
  by (induction xs arbitrary: st) (auto simp: dense_step)

lemma aligned_step:
  assumes "aligned (mods_data st)"
  shows "aligned (mods_data (snd (step e x st)))"
proof (cases x)
  case (Install_file p)
  then show ?thesis
    using assms mods_install_file [of p e st] aligned_install [of st] by auto
next
  case (Install_folder p)
  then show ?thesis
    using assms mods_install_folder [of p e st] aligned_install [of st] by auto
next
  case (Remove sel c)
  then show ?thesis
    using assms mods_remove [of sel c e st] aligned_renumber by auto
next
  case (Toggle sel)
  then show ?thesis
    using assms mods_toggle [of sel e st] aligned_toggle by (auto split: option.splits)
next
  case (Move sel dir)
  then show ?thesis
    using assms mods_move [of sel dir e st] aligned_renumber by auto
qed

lemma aligned_nth:
  assumes "aligned ms" and "i < length ms"
  shows "priority (ms ! i) = int i"
proof -
  have "map priority ms ! i = map int [0..<length ms] ! i"
    using assms(1) by (simp add: aligned_def)
  then show ?thesis
    using assms(2) by simp
qed

lemma sort_key_sorted: "sorted (map f xs) \<Longrightarrow> sort_key f xs = xs"
  by (induction xs) (auto simp: insort_is_Cons)

lemma sorted_aligned: "aligned ms \<Longrightarrow> sorted (map priority ms)"
  by (simp add: aligned_def sorted_map)

lemma view_aligned: "aligned ms \<Longrightarrow> refresh_mod_list ms = ms"
  by (simp add: refresh_mod_list_def sort_key_sorted sorted_aligned)

section \<open>The dense permutation of priorities\<close>

text \<open>
  Claim C1. From a registry whose priorities are a permutation of \<open>0, ..., N-1\<close>, after
  every prefix of every run of installs, removals, moves and toggles, in whatever way
  the copies, deletions and saves end, the priorities of the registry in memory are
  again a permutation of \<open>0, ..., N-1\<close> for its current length \<open>N\<close>.
\<close>

theorem dense_permutation_invariant:
  "dense_perm (mods_data st) \<Longrightarrow> dense_perm (mods_data (run (take k xs) st))"
  by (rule dense_run)

theorem dense_permutation_invariant_witness:
  "dense_perm (mods_data (session_of [mod_b, mod_c, mod_a])) \<and>
   dense_perm (mods_data (run (take 4 sample_ops) (session_of [mod_b, mod_c, mod_a])))"
proof -
  have h: "dense_perm (mods_data (session_of [mod_b, mod_c, mod_a]))"
    by (simp add: dense_perm_def session_of_def mod_a_def mod_b_def mod_c_def upt_conv_Cons)
  show ?thesis
    using h dense_permutation_invariant [OF h, of 4 sample_ops] by (rule conjI)
qed

section \<open>Priority equals storage index\<close>

text \<open>
  Claim C10. When the priority of every mod is its index in \<^verbatim>\<open>self.mods_data\<close>,
  then after an install, a removal, a move or a toggle the priority of every mod is
  again its index, the stored order is ascending in priority, and the list shown by
  \<^verbatim>\<open>refresh_mod_list\<close> is the stored order.
\<close>

theorem priority_is_index_invariant:
  assumes "aligned (mods_data st)"
  shows "aligned (mods_data (snd (step e x st))) \<and>
         (\<forall>i < length (mods_data (snd (step e x st))).
            priority (mods_data (snd (step e x st)) ! i) = int i) \<and>
         sorted (map priority (mods_data (snd (step e x st)))) \<and>
         refresh_mod_list (mods_data (snd (step e x st))) = mods_data (snd (step e x st))"
  using aligned_step [OF assms, of e x]
  by (simp add: aligned_nth sorted_aligned view_aligned)

theorem priority_is_index_invariant_witness:
  "aligned (mods_data (session_of [mod_a, mod_b, mod_c])) \<and>
   aligned (mods_data (snd (step env_ok (Move (Some ''C'') (- 1)) (session_of [mod_a, mod_b, mod_c])))) \<and>
   refresh_mod_list (mods_data (snd (step env_ok (Move (Some ''C'') (- 1)) (session_of [mod_a, mod_b, mod_c]))))
     = mods_data (snd (step env_ok (Move (Some ''C'') (- 1)) (session_of [mod_a, mod_b, mod_c])))"
proof -
  have h: "aligned (mods_data (session_of [mod_a, mod_b, mod_c]))"
    by (simp add: aligned_def session_of_def mod_a_def mod_b_def mod_c_def upt_conv_Cons)
  show ?thesis
    using h priority_is_index_invariant [OF h, of env_ok "Move (Some ''C'') (- 1)"] by blast
qed

section \<open>More lemmas on the registry operations\<close>

lemmas sample_defs = session_of_def env_ok_def mod_a_def mod_b_def mod_c_def install_mod_file_def
     install_mod_folder_def move_mod_def remove_mod_def toggle_mod_def save_shown_def
     save_mods_data_def copy2_def copytree_def
     basename_def splitext_root_def path_join_def new_mod_def renumber_def pop_def swap_items_def
     remove_payload_def os_remove_def rmtree_def enumerate_eq_zip upt_conv_Cons Let_def
     env_copy_partway_def env_save_fails_def env_delete_fails_def


lemma find_mod_first:
  "i < length ms \<Longrightarrow> name (ms ! i) = n \<Longrightarrow> \<forall>j<i. name (ms ! j) \<noteq> n \<Longrightarrow> find_mod n ms = Some i"
proof (induction ms arbitrary: i)
  case Nil
  then show ?case by simp
next
  case (Cons m ms)
  show ?case
  proof (cases i)
    case 0
    with Cons.prems show ?thesis by simp
  next
    case (Suc k)
    with Cons.prems have "name m \<noteq> n" by auto
    moreover have "find_mod n ms = Some k"
    proof (rule Cons.IH)
      show "k < length ms" using Cons.prems(1) Suc by simp
      show "name (ms ! k) = n" using Cons.prems(2) Suc by simp
      show "\<forall>j<k. name (ms ! j) \<noteq> n"
      proof (intro allI impI)
        fix j assume "j < k"
        then have "Suc j < i" using Suc by simp
        with Cons.prems(3) have "name ((m # ms) ! Suc j) \<noteq> n" by blast
        then show "name (ms ! j) \<noteq> n" by simp
      qed
    qed
    ultimately show ?thesis using Suc by simp
  qed
qed

lemma find_mod_None: "find_mod n ms = None \<longleftrightarrow> n \<notin> set (map name ms)"
  by (induction ms) auto

lemma find_mod_member:
  "m \<in> set ms \<Longrightarrow> \<exists>i. find_mod (name m) ms = Some i"
  using find_mod_None [of "name m" ms] by (cases "find_mod (name m) ms") auto

lemma toggle_first_None: "find_mod n ms = None \<Longrightarrow> toggle_first n ms = ms"
  by (induction ms) (auto split: if_splits)













lemma save_shown_fail:
  "save_io e = IoRaises r \<Longrightarrow> fst (save_shown e st) = ErrorShown OSError"
  by (cases r) (simp_all add: save_shown_def save_mods_data_def)


section \<open>An install whose copy raises\<close>

text \<open>
  Claim C2, as the specification states it, fails: neither install handler removes
  anything after a copy that raised. Here the copy of a file raises partway and its
  incomplete destination is still in the mods folder when the handler returns.
\<close>

theorem install_copy_failure_counterexample:
  "copy_io env_copy_partway = IoRaises Remnant \<and>
   disk (snd (install_mod_file ''/dl/D.zip'' env_copy_partway (session_of [mod_a])))
     ''/mods/D.zip'' = Some Incomplete"
  by (simp add: sample_defs)

text \<open>
  Claim C2, amended. Whenever the copy of an install raises, an error is shown, the
  registry in memory and the registry file are as before (no record of the mod
  exists), and the mods folder is as the copy left it: an incomplete destination stays
  there. The copy of a file raises when the environment makes it raise
  (\<^verbatim>\<open>OSError\<close>). The copy of a folder raises when its destination exists
  (\<^verbatim>\<open>FileExistsError\<close>, nothing written) and otherwise when the environment
  makes it raise (\<^verbatim>\<open>OSError\<close>).
\<close>

theorem install_copy_failure:
  "(copy_io e = IoRaises r \<longrightarrow>
      fst (install_mod_file p e st) = ErrorShown OSError \<and>
      mods_data (snd (install_mod_file p e st)) = mods_data st \<and>
      mods_file (snd (install_mod_file p e st)) = mods_file st \<and>
      disk (snd (install_mod_file p e st)) =
        (case r of Untouched \<Rightarrow> disk st
         | Remnant \<Rightarrow> (disk st)(path_join (mods_folder st) (basename p) \<mapsto> Incomplete))) \<and>
   (copy_io e = IoRaises r \<and> disk st (path_join (mods_folder st) (basename p)) = None \<longrightarrow>
      fst (install_mod_folder p e st) = ErrorShown OSError \<and>
      mods_data (snd (install_mod_folder p e st)) = mods_data st \<and>
      mods_file (snd (install_mod_folder p e st)) = mods_file st \<and>
      disk (snd (install_mod_folder p e st)) =
        (case r of Untouched \<Rightarrow> disk st
         | Remnant \<Rightarrow> (disk st)(path_join (mods_folder st) (basename p) \<mapsto> Incomplete))) \<and>
   (disk st (path_join (mods_folder st) (basename p)) \<noteq> None \<longrightarrow>
      fst (install_mod_folder p e st) = ErrorShown FileExistsError \<and>
      mods_data (snd (install_mod_folder p e st)) = mods_data st \<and>
      mods_file (snd (install_mod_folder p e st)) = mods_file st \<and>
      disk (snd (install_mod_folder p e st)) = disk st)"
  by (cases r)
    (auto simp add: install_mod_file_def install_mod_folder_def copy2_def copytree_def Let_def)

theorem install_copy_failure_witness:
  "copy_io env_copy_partway = IoRaises Remnant \<and>
   fst (install_mod_file ''/dl/D.zip'' env_copy_partway (session_of [mod_a])) = ErrorShown OSError \<and>
   mods_data (snd (install_mod_file ''/dl/D.zip'' env_copy_partway (session_of [mod_a]))) = [mod_a] \<and>
   disk (session_of [mod_a]) ''/mods/E'' = None \<and>
   fst (install_mod_folder ''/dl/E'' env_copy_partway (session_of [mod_a])) = ErrorShown OSError \<and>
   mods_data (snd (install_mod_folder ''/dl/E'' env_copy_partway (session_of [mod_a]))) = [mod_a] \<and>
   disk session_on_disk ''/mods/A.zip'' \<noteq> None \<and>
   fst (install_mod_folder ''/dl/A.zip'' env_ok session_on_disk) = ErrorShown FileExistsError \<and>
   mods_data (snd (install_mod_folder ''/dl/A.zip'' env_ok session_on_disk)) = [mod_a, mod_b]"
proof -
  have h: "copy_io env_copy_partway = IoRaises Remnant"
    by (simp add: env_copy_partway_def)
  have pe: "path_join (mods_folder (session_of [mod_a])) (basename ''/dl/E'') = ''/mods/E''"
    and pa: "path_join (mods_folder session_on_disk) (basename ''/dl/A.zip'') = ''/mods/A.zip''"
    by (simp_all add: session_of_def session_on_disk_def path_join_def basename_def)
  have absent: "disk (session_of [mod_a]) ''/mods/E'' = None"
    by (simp add: session_of_def)
  have present: "disk session_on_disk ''/mods/A.zip'' \<noteq> None"
    by (simp add: session_on_disk_def)
  have m1: "mods_data (session_of [mod_a]) = [mod_a]"
    and m2: "mods_data session_on_disk = [mod_a, mod_b]"
    by (simp_all add: session_of_def session_on_disk_def)
  from install_copy_failure [of env_copy_partway Remnant "''/dl/D.zip''" "session_of [mod_a]"] h m1
  have a: "fst (install_mod_file ''/dl/D.zip'' env_copy_partway (session_of [mod_a])) = ErrorShown OSError \<and>
    mods_data (snd (install_mod_file ''/dl/D.zip'' env_copy_partway (session_of [mod_a]))) = [mod_a]"
    by simp
  from install_copy_failure [of env_copy_partway Remnant "''/dl/E''" "session_of [mod_a]"] h absent m1
  have b: "fst (install_mod_folder ''/dl/E'' env_copy_partway (session_of [mod_a])) = ErrorShown OSError \<and>
    mods_data (snd (install_mod_folder ''/dl/E'' env_copy_partway (session_of [mod_a]))) = [mod_a]"
    unfolding pe by simp
  from install_copy_failure [of env_ok Remnant "''/dl/A.zip''" session_on_disk] present m2
  have c: "fst (install_mod_folder ''/dl/A.zip'' env_ok session_on_disk) = ErrorShown FileExistsError \<and>
    mods_data (snd (install_mod_folder ''/dl/A.zip'' env_ok session_on_disk)) = [mod_a, mod_b]"
    unfolding pa by simp
  from h a b c absent present show ?thesis
    by simp
qed

section \<open>Installing onto the path of a live mod\<close>





section \<open>A save that raises\<close>

lemma copy2_save_irrelevant: "copy2 (e\<lparr>save_io := v\<rparr>) dst d = copy2 e dst d"
  by (simp add: copy2_def)

lemma copytree_save_irrelevant: "copytree (e\<lparr>save_io := v\<rparr>) dst d = copytree e dst d"
  by (simp add: copytree_def)

lemma remove_payload_save_irrelevant:
  "remove_payload (e\<lparr>save_io := v\<rparr>) m p d = remove_payload e m p d"
  by (simp add: remove_payload_def rmtree_def os_remove_def)

lemma failed_flush_install_file:
  assumes "save_io e = IoRaises r"
  shows "mods_data (snd (install_mod_file p e st)) =
           mods_data (snd (install_mod_file p (e\<lparr>save_io := IoOk\<rparr>) st)) \<and>
         (fst (install_mod_file p (e\<lparr>save_io := IoOk\<rparr>) st) = Completed \<longrightarrow>
            fst (install_mod_file p e st) = ErrorShown OSError)"
  using assms save_shown_fail [OF assms]
  by (auto simp add: install_mod_file_def Let_def copy2_save_irrelevant mods_data_save_shown
      split: prod.splits option.splits)

lemma failed_flush_install_folder:
  assumes "save_io e = IoRaises r"
  shows "mods_data (snd (install_mod_folder p e st)) =
           mods_data (snd (install_mod_folder p (e\<lparr>save_io := IoOk\<rparr>) st)) \<and>
         (fst (install_mod_folder p (e\<lparr>save_io := IoOk\<rparr>) st) = Completed \<longrightarrow>
            fst (install_mod_folder p e st) = ErrorShown OSError)"
  using assms save_shown_fail [OF assms]
  by (auto simp add: install_mod_folder_def Let_def copytree_save_irrelevant mods_data_save_shown
      split: prod.splits option.splits)

lemma failed_flush_remove:
  assumes "save_io e = IoRaises r"
  shows "mods_data (snd (remove_mod sel c e st)) =
           mods_data (snd (remove_mod sel c (e\<lparr>save_io := IoOk\<rparr>) st)) \<and>
         (fst (remove_mod sel c (e\<lparr>save_io := IoOk\<rparr>) st) = Completed \<longrightarrow>
            fst (remove_mod sel c e st) = ErrorShown OSError)"
  using assms save_shown_fail [OF assms]
  by (auto simp add: remove_mod_def Let_def remove_payload_save_irrelevant mods_data_save_shown
      split: prod.splits option.splits)

lemma failed_flush_toggle:
  assumes "save_io e = IoRaises r"
  shows "mods_data (snd (toggle_mod sel e st)) =
           mods_data (snd (toggle_mod sel (e\<lparr>save_io := IoOk\<rparr>) st)) \<and>
         (fst (toggle_mod sel (e\<lparr>save_io := IoOk\<rparr>) st) = Completed \<longrightarrow>
            fst (toggle_mod sel e st) = Raised OSError)"
  using assms
  by (cases r) (auto simp add: toggle_mod_def save_mods_data_def split: option.splits)

lemma failed_flush_move:
  assumes "save_io e = IoRaises r"
  shows "mods_data (snd (move_mod sel dir e st)) =
           mods_data (snd (move_mod sel dir (e\<lparr>save_io := IoOk\<rparr>) st)) \<and>
         (fst (move_mod sel dir (e\<lparr>save_io := IoOk\<rparr>) st) = Completed \<longrightarrow>
            fst (move_mod sel dir e st) = Raised OSError)"
  using assms
  by (cases r) (auto simp add: move_mod_def save_mods_data_def Let_def split: option.splits)


text \<open>
  Claim C4, as the specification states it, fails: no handler restores
  \<^verbatim>\<open>self.mods_data\<close> after \<^verbatim>\<open>save_mods_data\<close> raised. Here the save of an
  install raises, an error is shown, and the registry in memory holds the new mod.
\<close>

theorem failed_flush_counterexample:
  "is_error (fst (install_mod_file ''/dl/D.zip'' env_save_fails (session_of [mod_a]))) \<and>
   mods_data (snd (install_mod_file ''/dl/D.zip'' env_save_fails (session_of [mod_a])))
     \<noteq> mods_data (session_of [mod_a])"
  by (simp add: sample_defs)

text \<open>
  Claim C4, amended. When the save of an operation raises, the registry in memory is
  the one that the same operation leaves when its save returns (the mutation is kept,
  not rolled back), and an operation that would have completed reports the failure
  instead: install and remove show it in an error box, toggle and move let the
  exception escape.
\<close>

theorem failed_flush_keeps_mutation:
  assumes "save_io e = IoRaises r"
  shows "mods_data (snd (step e x st)) = mods_data (snd (step (e\<lparr>save_io := IoOk\<rparr>) x st)) \<and>
         (fst (step (e\<lparr>save_io := IoOk\<rparr>) x st) = Completed \<longrightarrow>
            fst (step e x st) =
              (case x of
                 Install_file p \<Rightarrow> ErrorShown OSError
               | Install_folder p \<Rightarrow> ErrorShown OSError
               | Remove sel c \<Rightarrow> ErrorShown OSError
               | Toggle sel \<Rightarrow> Raised OSError
               | Move sel dir \<Rightarrow> Raised OSError))"
proof (cases x)
  case (Install_file p)
  then show ?thesis using failed_flush_install_file [OF assms] by simp
next
  case (Install_folder p)
  then show ?thesis using failed_flush_install_folder [OF assms] by simp
next
  case (Remove sel c)
  then show ?thesis using failed_flush_remove [OF assms] by simp
next
  case (Toggle sel)
  then show ?thesis using failed_flush_toggle [OF assms] by simp
next
  case (Move sel dir)
  then show ?thesis using failed_flush_move [OF assms] by simp
qed

theorem failed_flush_keeps_mutation_witness:
  "save_io env_save_fails = IoRaises Untouched \<and>
   fst (step (env_save_fails\<lparr>save_io := IoOk\<rparr>) (Remove (Some ''A'') True) (session_of [mod_a, mod_b])) = Completed \<and>
   fst (step env_save_fails (Remove (Some ''A'') True) (session_of [mod_a, mod_b])) = ErrorShown OSError \<and>
   mods_data (snd (step env_save_fails (Remove (Some ''A'') True) (session_of [mod_a, mod_b]))) =
   mods_data (snd (step (env_save_fails\<lparr>save_io := IoOk\<rparr>) (Remove (Some ''A'') True) (session_of [mod_a, mod_b]))) \<and>
   fst (step (env_save_fails\<lparr>save_io := IoOk\<rparr>) (Toggle (Some ''A'')) (session_of [mod_a, mod_b])) = Completed \<and>
   fst (step env_save_fails (Toggle (Some ''A'')) (session_of [mod_a, mod_b])) = Raised OSError \<and>
   mods_data (snd (step env_save_fails (Toggle (Some ''A'')) (session_of [mod_a, mod_b]))) =
   mods_data (snd (step (env_save_fails\<lparr>save_io := IoOk\<rparr>) (Toggle (Some ''A'')) (session_of [mod_a, mod_b])))"
proof -
  have h: "save_io env_save_fails = IoRaises Untouched"
    by (simp add: env_save_fails_def)
  have c: "fst (step (env_save_fails\<lparr>save_io := IoOk\<rparr>) (Remove (Some ''A'') True) (session_of [mod_a, mod_b])) = Completed"
    and d: "fst (step (env_save_fails\<lparr>save_io := IoOk\<rparr>) (Toggle (Some ''A'')) (session_of [mod_a, mod_b])) = Completed"
    by (simp_all add: sample_defs)
  from failed_flush_keeps_mutation [OF h, of "Remove (Some ''A'') True" "session_of [mod_a, mod_b]"] c
  have r: "fst (step env_save_fails (Remove (Some ''A'') True) (session_of [mod_a, mod_b])) = ErrorShown OSError \<and>
     mods_data (snd (step env_save_fails (Remove (Some ''A'') True) (session_of [mod_a, mod_b]))) =
     mods_data (snd (step (env_save_fails\<lparr>save_io := IoOk\<rparr>) (Remove (Some ''A'') True) (session_of [mod_a, mod_b])))"
    by simp
  from failed_flush_keeps_mutation [OF h, of "Toggle (Some ''A'')" "session_of [mod_a, mod_b]"] d
  have t: "fst (step env_save_fails (Toggle (Some ''A'')) (session_of [mod_a, mod_b])) = Raised OSError \<and>
     mods_data (snd (step env_save_fails (Toggle (Some ''A'')) (session_of [mod_a, mod_b]))) =
     mods_data (snd (step (env_save_fails\<lparr>save_io := IoOk\<rparr>) (Toggle (Some ''A'')) (session_of [mod_a, mod_b])))"
    by simp
  from h c d r t show ?thesis
    by simp
qed

section \<open>Moving at the boundary\<close>

text \<open>
  Claim C7, as the specification states it, fails: \<^verbatim>\<open>move_mod\<close> tests the index of
  the mod in \<^verbatim>\<open>self.mods_data\<close>, not its priority. In a registry whose priorities
  are a permutation of \<open>0, 1, 2\<close> stored in another order, moving the mod of priority 0
  up swaps it with its neighbour in storage and renumbers.
\<close>

theorem move_boundary_counterexample:
  "dense_perm [mod_b, mod_c, mod_a] \<and> priority mod_a = 0 \<and>
   fst (move_mod (Some ''A'') (- 1) env_ok (session_of [mod_b, mod_c, mod_a])) = Completed \<and>
   map name (mods_data (snd (move_mod (Some ''A'') (- 1) env_ok (session_of [mod_b, mod_c, mod_a]))))
     = [''B'', ''A'', ''C''] \<and>
   map priority (mods_data (snd (move_mod (Some ''A'') (- 1) env_ok (session_of [mod_b, mod_c, mod_a]))))
     = [0, 1, 2]"
  by (simp add: sample_defs dense_perm_def)

text \<open>
  Claim C7, amended. In a registry where the priority of every mod is its index in
  storage, moving up the mod of priority 0, and moving down the mod of the greatest
  priority when no mod before it has its name, return without an error and leave the
  whole session as it is (so the priorities are still a dense permutation).
\<close>

theorem move_boundary_noop:
  assumes "aligned (mods_data st)" and "m \<in> set (mods_data st)"
  shows "(priority m = 0 \<longrightarrow> move_mod (Some (name m)) (- 1) e st = (NoAction, st)) \<and>
         (priority m = int (length (mods_data st)) - 1 \<and>
          (\<forall>j. j < length (mods_data st) - 1 \<longrightarrow> name (mods_data st ! j) \<noteq> name m) \<longrightarrow>
            move_mod (Some (name m)) 1 e st = (NoAction, st))"
proof -
  from assms(2) obtain k where k: "k < length (mods_data st)" "mods_data st ! k = m"
    by (auto simp add: in_set_conv_nth)
  have pk: "priority m = int k"
    using aligned_nth [OF assms(1) k(1)] k(2) by simp
  have first: "move_mod (Some (name m)) (- 1) e st = (NoAction, st)" if "priority m = 0"
  proof -
    from that pk have "k = 0" by simp
    with k have "find_mod (name m) (mods_data st) = Some 0"
      by (intro find_mod_first) simp_all
    then show ?thesis
      by (simp add: move_mod_def)
  qed
  have last: "move_mod (Some (name m)) 1 e st = (NoAction, st)"
    if "priority m = int (length (mods_data st)) - 1"
      and "\<forall>j. j < length (mods_data st) - 1 \<longrightarrow> name (mods_data st ! j) \<noteq> name m"
  proof -
    from that(1) pk have kl: "k = length (mods_data st) - 1" by linarith
    have "find_mod (name m) (mods_data st) = Some k"
      using k that(2) kl by (intro find_mod_first) simp_all
    then show ?thesis
      using k(1) kl by (simp add: move_mod_def)
  qed
  from first last show ?thesis
    by blast
qed

theorem move_boundary_noop_witness:
  "aligned (mods_data (session_of [mod_a, mod_b, mod_c])) \<and>
   mod_a \<in> set (mods_data (session_of [mod_a, mod_b, mod_c])) \<and> priority mod_a = 0 \<and>
   move_mod (Some ''A'') (- 1) env_ok (session_of [mod_a, mod_b, mod_c]) =
     (NoAction, session_of [mod_a, mod_b, mod_c]) \<and>
   mod_c \<in> set (mods_data (session_of [mod_a, mod_b, mod_c])) \<and> priority mod_c = 2 \<and>
   move_mod (Some ''C'') 1 env_ok (session_of [mod_a, mod_b, mod_c]) =
     (NoAction, session_of [mod_a, mod_b, mod_c])"
proof -
  let ?s = "session_of [mod_a, mod_b, mod_c]"
  have al: "aligned (mods_data ?s)"
    by (simp add: aligned_def session_of_def mod_a_def mod_b_def mod_c_def upt_conv_Cons)
  have ma: "mod_a \<in> set (mods_data ?s)" and mc: "mod_c \<in> set (mods_data ?s)"
    by (simp_all add: session_of_def)
  have pa: "priority mod_a = 0" and pc: "priority mod_c = int (length (mods_data ?s)) - 1"
    by (simp_all add: session_of_def mod_a_def mod_c_def)
  have names: "\<forall>j. j < length (mods_data ?s) - 1 \<longrightarrow> name (mods_data ?s ! j) \<noteq> name mod_c"
    by (simp add: session_of_def mod_a_def mod_b_def mod_c_def less_Suc_eq nth_Cons')
  have na: "name mod_a = ''A''" and nc: "name mod_c = ''C''"
    by (simp_all add: mod_a_def mod_c_def)
  from move_boundary_noop [OF al ma, of env_ok] pa na
  have up: "move_mod (Some ''A'') (- 1) env_ok ?s = (NoAction, ?s)"
    by simp
  from move_boundary_noop [OF al mc, of env_ok] pc names nc
  have down: "move_mod (Some ''C'') 1 env_ok ?s = (NoAction, ?s)"
    by simp
  have "priority mod_c = 2"
    by (simp add: mod_c_def)
  with al ma mc pa up down show ?thesis
    by simp
qed

section \<open>A target that matches no mod\<close>

text \<open>
  Claim C9, as the specification states it, fails: neither handler reports a missing
  target. With a name that no mod has, \<^verbatim>\<open>remove_mod\<close> returns silently and
  \<^verbatim>\<open>toggle_mod\<close> sets its success message.
\<close>

theorem unmatched_target_counterexample:
  "find_mod ''X'' (mods_data (session_of [mod_a])) = None \<and>
   \<not> is_error (fst (remove_mod (Some ''X'') True env_ok (session_of [mod_a]))) \<and>
   \<not> is_error (fst (toggle_mod (Some ''X'') env_ok (session_of [mod_a])))"
  by (simp add: sample_defs)

text \<open>
  Claim C9, amended. With a name that no mod of the registry has, \<^verbatim>\<open>remove_mod\<close>
  and \<^verbatim>\<open>toggle_mod\<close> leave the registry in memory as it is, and
  \<^verbatim>\<open>remove_mod\<close> returns without an error, without a save and without any other
  change of the session.
\<close>

theorem unmatched_target_leaves_registry:
  assumes "n \<notin> set (map name (mods_data st))"
  shows "remove_mod (Some n) c e st = (if c then NoAction else Cancelled, st) \<and>
         mods_data (snd (toggle_mod (Some n) e st)) = mods_data st"
proof -
  have none: "find_mod n (mods_data st) = None"
    using assms by (simp add: find_mod_None)
  have "remove_mod (Some n) c e st = (if c then NoAction else Cancelled, st)"
    using none by (simp add: remove_mod_def)
  moreover have "mods_data (snd (toggle_mod (Some n) e st)) = mods_data st"
    using none by (simp add: mods_toggle toggle_first_None)
  ultimately show ?thesis
    by (rule conjI)
qed

theorem unmatched_target_leaves_registry_witness:
  "''X'' \<notin> set (map name (mods_data (session_of [mod_a]))) \<and>
   remove_mod (Some ''X'') True env_ok (session_of [mod_a]) = (NoAction, session_of [mod_a]) \<and>
   mods_data (snd (toggle_mod (Some ''X'') env_ok (session_of [mod_a]))) = mods_data (session_of [mod_a])"
proof -
  have h: "''X'' \<notin> set (map name (mods_data (session_of [mod_a])))"
    by (simp add: session_of_def mod_a_def)
  from unmatched_target_leaves_registry [OF h, of True env_ok] h show ?thesis
    by simp
qed

section \<open>Uninstalling\<close>






section \<open>Recent paths\<close>

lemma recent_paths_set: "recent_paths (set_recent_paths k xs c) k = xs"
  by (cases k) simp_all

lemma add_to_recent_paths_list:
  assumes "path \<noteq> []" and "ex path"
  shows "recent_paths (fst (snd (add_to_recent_paths ex k path a))) k =
           take 10 (path # remove1 path (recent_paths (fst a) k))"
  using assms
  by (simp add: add_to_recent_paths_def Let_def recent_paths_set max_recent_items_def remove1_idem
      split: sum.splits)

lemma record_all_snoc:
  "record_all ex k (ps @ [p]) a = snd (add_to_recent_paths ex k p (record_all ex k ps a))"
  by (induction ps arbitrary: a) simp_all

lemma take_take_append:
  "n \<le> m \<Longrightarrow> take n (take m ys @ r) = take n (ys @ r)"
  by (cases "length ys \<le> m") (simp_all add: min_def)

lemma front_step:
  assumes "p \<notin> set ps"
  shows "take 10 (p # remove1 p (take 10 (rev ps @ r))) =
         take 10 (rev (ps @ [p]) @ remove1 p (take (10 - length ps) r))"
proof -
  have "p \<notin> set (take 10 (rev ps))"
    using assms by (auto dest: in_set_takeD)
  then have "remove1 p (take 10 (rev ps @ r)) = take 10 (rev ps) @ remove1 p (take (10 - length ps) r)"
    by (simp add: remove1_append)
  then have "take 10 (p # remove1 p (take 10 (rev ps @ r))) =
             p # take 9 (take 10 (rev ps) @ remove1 p (take (10 - length ps) r))"
    by simp
  also have "\<dots> = p # take 9 (rev ps @ remove1 p (take (10 - length ps) r))"
    by (simp only: take_take_append [of 9 10])
  finally show ?thesis
    by simp
qed

lemma record_all_front:
  assumes "distinct ps" and "[] \<notin> set ps" and "\<forall>p \<in> set ps. ex p" and "ps \<noteq> []"
  shows "\<exists>r. recent_paths (fst (record_all ex k ps a)) k = take 10 (rev ps @ r)"
  using assms
proof (induction ps rule: rev_induct)
  case Nil
  then show ?case by simp
next
  case (snoc p ps)
  from snoc.prems have p: "p \<noteq> []" "ex p" "p \<notin> set ps"
    by auto
  show ?case
  proof (cases "ps = []")
    case True
    have "recent_paths (fst (record_all ex k (ps @ [p]) a)) k =
            take 10 (rev (ps @ [p]) @ remove1 p (recent_paths (fst a) k))"
      using True by (simp add: add_to_recent_paths_list [of p ex, OF p(1) p(2)])
    then show ?thesis ..
  next
    case False
    with snoc obtain r where r: "recent_paths (fst (record_all ex k ps a)) k = take 10 (rev ps @ r)"
      by auto
    have "recent_paths (fst (record_all ex k (ps @ [p]) a)) k =
            take 10 (p # remove1 p (take 10 (rev ps @ r)))"
      by (simp only: record_all_snoc add_to_recent_paths_list [of p ex, OF p(1) p(2)] r)
    then have "recent_paths (fst (record_all ex k (ps @ [p]) a)) k =
            take 10 (rev (ps @ [p]) @ remove1 p (take (10 - length ps) r))"
      by (simp only: front_step [OF p(3)])
    then show ?thesis ..
  qed
qed

lemma record_all_recent:
  assumes "distinct ps" and "[] \<notin> set ps" and "\<forall>p \<in> set ps. ex p" and "10 \<le> length ps"
  shows "recent_paths (fst (record_all ex k ps a)) k = take 10 (rev ps)"
proof -
  from assms(4) have "ps \<noteq> []" by auto
  from record_all_front [OF assms(1-3) this] obtain r where
    "recent_paths (fst (record_all ex k ps a)) k = take 10 (rev ps @ r)" ..
  with assms(4) show ?thesis by simp
qed

lemma refresh_idem:
  "take 10 (p # remove1 p (take 10 (p # remove1 p xs))) = take 10 (p # remove1 p xs)"
  by simp

lemma record_same:
  assumes "path \<noteq> []" and "ex path"
  shows "recent_paths (fst (record_all ex k (replicate (Suc n) path) a)) k =
           take 10 (path # remove1 path (recent_paths (fst a) k))"
proof (induction n arbitrary: a)
  case 0
  show ?case by (simp add: add_to_recent_paths_list [of path ex, OF assms])
next
  case (Suc n)
  have "recent_paths (fst (record_all ex k (replicate (Suc (Suc n)) path) a)) k =
        recent_paths (fst (record_all ex k (replicate (Suc n) path) (snd (add_to_recent_paths ex k path a)))) k"
    by simp
  also have "\<dots> = take 10 (path # remove1 path (recent_paths (fst (snd (add_to_recent_paths ex k path a))) k))"
    by (rule Suc.IH)
  also have "\<dots> = take 10 (path # remove1 path (recent_paths (fst a) k))"
    by (simp only: add_to_recent_paths_list [of path ex, OF assms] refresh_idem)
  finally show ?case .
qed


lemma distinct_refresh:
  assumes "distinct xs"
  shows "distinct (take 10 (p # remove1 p xs)) \<and>
         take 10 (p # remove1 p xs) = take 10 (p # removeAll p xs)"
proof -
  have eq: "remove1 p xs = removeAll p xs"
    using assms by (rule distinct_remove1_removeAll)
  have "distinct (p # removeAll p xs)"
    using assms by (simp add: distinct_removeAll)
  then have "distinct (take 10 (p # removeAll p xs))"
    by (rule distinct_take)
  then show ?thesis
    by (simp only: eq simp_thms)
qed

text \<open>
  Claim C8. The code means to do what the claim says: its comment on the removal
  reads \<^verbatim>\<open>Remove if already exists to avoid duplicates\<close>. But
  \<^verbatim>\<open>list.remove\<close> takes out one occurrence. On a list that holds the path twice
  (\<^verbatim>\<open>load_config\<close> keeps every piece that it splits from the INI file), the path
  is in the list twice after \<^verbatim>\<open>add_to_recent_paths\<close>: an earlier occurrence was
  not removed.
\<close>

theorem record_recent_keeps_duplicate:
  "all_exist ''/games/a'' \<and>
   recent_paths (fst (snd (add_to_recent_paths all_exist Game ''/games/a'' (doubled_catalog, None)))) Game
     = [''/games/a'', ''/games/a'']"
  by (simp add: all_exist_def doubled_catalog_def init_catalog_def add_to_recent_paths_def
      max_recent_items_def Let_def split: sum.splits)

text \<open>
  What \<^verbatim>\<open>add_to_recent_paths\<close> does on every list, with an existing path: the
  path is put in front, one earlier occurrence is taken out, and at most 10 entries
  are kept. On a list without duplicates the result has none. From an empty list,
  adding one path any number of times gives the list of that path alone, and adding 11
  distinct paths gives the last 10 of them, the latest first.
\<close>

theorem record_recent:
  assumes "path \<noteq> []" and "ex path"
  shows "recent_paths (fst (snd (add_to_recent_paths ex k path a))) k =
           take 10 (path # remove1 path (recent_paths (fst a) k)) \<and>
         hd (recent_paths (fst (snd (add_to_recent_paths ex k path a))) k) = path \<and>
         length (recent_paths (fst (snd (add_to_recent_paths ex k path a))) k) \<le> 10 \<and>
         (distinct (recent_paths (fst a) k) \<longrightarrow>
            distinct (recent_paths (fst (snd (add_to_recent_paths ex k path a))) k) \<and>
            recent_paths (fst (snd (add_to_recent_paths ex k path a))) k =
              take 10 (path # removeAll path (recent_paths (fst a) k))) \<and>
         (recent_paths (fst a) k = [] \<longrightarrow>
            recent_paths (fst (record_all ex k (replicate (Suc n) path) a)) k = [path]) \<and>
         (distinct ps \<and> [] \<notin> set ps \<and> (\<forall>p \<in> set ps. ex p) \<and> length ps = 11 \<longrightarrow>
            recent_paths (fst (record_all ex k ps a)) k = take 10 (rev ps))"
proof -
  note one = add_to_recent_paths_list [of path ex, OF assms, of k a]
  have "hd (recent_paths (fst (snd (add_to_recent_paths ex k path a))) k) = path"
    and "length (recent_paths (fst (snd (add_to_recent_paths ex k path a))) k) \<le> 10"
    by (simp_all add: one)
  moreover have "distinct (recent_paths (fst (snd (add_to_recent_paths ex k path a))) k) \<and>
            recent_paths (fst (snd (add_to_recent_paths ex k path a))) k =
              take 10 (path # removeAll path (recent_paths (fst a) k))"
    if "distinct (recent_paths (fst a) k)"
    unfolding one using distinct_refresh [OF that, of path] by fast
  moreover have "recent_paths (fst (record_all ex k (replicate (Suc n) path) a)) k = [path]"
    if "recent_paths (fst a) k = []"
    using record_same [of path ex, OF assms, of k n a] that by simp
  moreover have "recent_paths (fst (record_all ex k ps a)) k = take 10 (rev ps)"
    if "distinct ps \<and> [] \<notin> set ps \<and> (\<forall>p \<in> set ps. ex p) \<and> length ps = 11"
  proof (rule record_all_recent)
    show "distinct ps" "[] \<notin> set ps" "\<forall>p \<in> set ps. ex p" "10 \<le> length ps"
      using that by simp_all
  qed
  ultimately show ?thesis
    using one by blast
qed

theorem record_recent_witness:
  "''/games/quake'' \<noteq> [] \<and> all_exist ''/games/quake'' \<and>
   distinct (recent_paths (fst (sample_catalog, None :: ini option)) Game) \<and>
   recent_paths (fst (snd (add_to_recent_paths all_exist Game ''/games/quake'' (sample_catalog, None)))) Game
     = [''/games/quake'', ''/games/doom''] \<and>
   recent_paths (fst (sample_catalog, None :: ini option)) Files = [] \<and>
   recent_paths (fst (record_all all_exist Files (replicate 15 ''/games/quake'') (sample_catalog, None))) Files
     = [''/games/quake''] \<and>
   distinct eleven_paths \<and> length eleven_paths = 11 \<and>
   recent_paths (fst (record_all all_exist Game eleven_paths (sample_catalog, None))) Game
     = [''/m/11'', ''/m/10'', ''/m/9'', ''/m/8'', ''/m/7'', ''/m/6'', ''/m/5'', ''/m/4'', ''/m/3'', ''/m/2'']"
proof -
  let ?a = "(sample_catalog, None :: ini option)"
  have h1: "''/games/quake'' \<noteq> []" and h2: "all_exist ''/games/quake''"
    by (simp_all add: all_exist_def)
  have d: "distinct (recent_paths (fst ?a) Game)"
    by (simp add: sample_catalog_def)
  have e: "recent_paths (fst ?a) Files = []"
    by (simp add: sample_catalog_def)
  have ps: "distinct eleven_paths \<and> [] \<notin> set eleven_paths \<and>
            (\<forall>p \<in> set eleven_paths. all_exist p) \<and> length eleven_paths = 11"
    by (simp add: eleven_paths_def all_exist_def)
  from record_recent [of "''/games/quake''" all_exist, OF h1 h2, of Game ?a 14 eleven_paths] d ps
  have g: "recent_paths (fst (snd (add_to_recent_paths all_exist Game ''/games/quake'' ?a))) Game =
             take 10 (''/games/quake'' # removeAll ''/games/quake'' (recent_paths (fst ?a) Game))"
    and l: "recent_paths (fst (record_all all_exist Game eleven_paths ?a)) Game = take 10 (rev eleven_paths)"
    by fast+
  from record_recent [of "''/games/quake''" all_exist, OF h1 h2, of Files ?a 14 eleven_paths] e
  have f: "recent_paths (fst (record_all all_exist Files (replicate (Suc 14) ''/games/quake'') ?a)) Files
             = [''/games/quake'']"
    by fast
  have g': "recent_paths (fst (snd (add_to_recent_paths all_exist Game ''/games/quake'' ?a))) Game
     = [''/games/quake'', ''/games/doom'']"
    unfolding g by (simp add: sample_catalog_def)
  have l': "recent_paths (fst (record_all all_exist Game eleven_paths ?a)) Game
     = [''/m/11'', ''/m/10'', ''/m/9'', ''/m/8'', ''/m/7'', ''/m/6'', ''/m/5'', ''/m/4'', ''/m/3'', ''/m/2'']"
    unfolding l by (simp add: eleven_paths_def)
  have f': "recent_paths (fst (record_all all_exist Files (replicate 15 ''/games/quake'') ?a)) Files
             = [''/games/quake'']"
    using f by (simp only: eval_nat_numeral)
  from h1 h2 d e ps g' l' f' show ?thesis
    by simp
qed

section \<open>Saving and reloading\<close>
































end
